theory Spec2Isabelle
  imports Main "HOL-Library.Sublist"
begin

section \<open>Python values, exceptions and the process configuration\<close>

text \<open>
  The server is \<^verbatim>\<open>filesystem-mcp-server.py\<close>. Every handler either returns a
  response model or raises; a raise is the left injection of a sum. Only the status code
  of an \<^verbatim>\<open>HTTPException\<close> is kept, its detail text is not modelled. The other
  constructors are the built-in exceptions the library calls of the handlers raise.
\<close>

datatype exn =
    HTTPException nat
  | LookupError
  | UnicodeDecodeError
  | FileNotFoundError
  | NotADirectoryError
  | ValidationError

text \<open>
  A file's bytes are a list of 8-bit characters; a Python \<^verbatim>\<open>str\<close> holding decoded
  file content is a list of Unicode code points. Paths and header values are kept as
  8-bit strings, the form in which a POSIX system sees them.
\<close>

type_synonym bytes = string
type_synonym unicode = "nat list"

text \<open>Truth value of an \<^verbatim>\<open>Optional[str]\<close>: \<^verbatim>\<open>None\<close> and the empty string are false.\<close>

fun truthy :: "string option \<Rightarrow> bool" where
  "truthy None = False"
| "truthy (Some s) = (s \<noteq> [])"

text \<open>The expression \<^verbatim>\<open>x or d\<close> for an \<^verbatim>\<open>Optional[str]\<close> \<open>x\<close>.\<close>

fun or_default :: "string option \<Rightarrow> string \<Rightarrow> string" where
  "or_default None d = d"
| "or_default (Some s) d = (if s = [] then d else s)"

text \<open>
  The module-level globals read from the environment at start-up
  (\<^verbatim>\<open>os.getenv\<close> gives \<^verbatim>\<open>None\<close> for an unset variable).
\<close>

record settings =
  MCP_API_KEY :: "string option"
  MCP_BASE_PATH :: "string option"

section \<open>The access gate\<close>

definition get_api_key :: "settings \<Rightarrow> string option \<Rightarrow> exn + string option" where
  "get_api_key cfg api_key =
     (if \<not> truthy (MCP_API_KEY cfg) then Inr None
      else if truthy api_key \<and> api_key = MCP_API_KEY cfg then Inr api_key
      else Inl (HTTPException 403))"

section \<open>POSIX path functions of the Python library\<close>

text \<open>
  \<^verbatim>\<open>os.path\<close> is taken to be \<^verbatim>\<open>posixpath\<close>. The definitions below follow its
  \<^verbatim>\<open>join\<close>, \<^verbatim>\<open>normpath\<close> and \<^verbatim>\<open>abspath\<close>; the working directory that
  \<^verbatim>\<open>os.getcwd\<close> returns is a parameter.
\<close>

definition startswith :: "string \<Rightarrow> string \<Rightarrow> bool" where
  "startswith s p = prefix p s"

definition endswith :: "string \<Rightarrow> string \<Rightarrow> bool" where
  "endswith s p = suffix p s"

text \<open>\<^verbatim>\<open>s.split(c)\<close>: the pieces between the occurrences of \<open>c\<close>, empty ones kept.\<close>

fun split_sep :: "char \<Rightarrow> string \<Rightarrow> string list" where
  "split_sep c [] = [[]]"
| "split_sep c (x # xs) =
     (if x = c then [] # split_sep c xs
      else (case split_sep c xs of
              [] \<Rightarrow> [[x]]
            | w # ws \<Rightarrow> (x # w) # ws))"

text \<open>\<^verbatim>\<open>'/'.join(comps)\<close>.\<close>

fun join_sep :: "string list \<Rightarrow> string" where
  "join_sep [] = []"
| "join_sep [w] = w"
| "join_sep (w # v # ws) = w @ CHR ''/'' # join_sep (v # ws)"

text \<open>\<^verbatim>\<open>os.path.join(a, b)\<close> with two arguments.\<close>

definition join :: "string \<Rightarrow> string \<Rightarrow> string" where
  "join a b =
     (if startswith b ''/'' then b
      else if a = [] \<or> endswith a ''/'' then a @ b
      else a @ ''/'' @ b)"

text \<open>
  One turn of the loop of \<^verbatim>\<open>normpath\<close> over the components; \<open>initial_slashes\<close> is
  0, 1 or 2.
\<close>

definition norm_step :: "nat \<Rightarrow> string list \<Rightarrow> string \<Rightarrow> string list" where
  "norm_step initial_slashes new_comps cmp =
     (if cmp = [] \<or> cmp = ''.'' then new_comps
      else if cmp \<noteq> ''..'' \<or> (initial_slashes = 0 \<and> new_comps = [])
              \<or> (new_comps \<noteq> [] \<and> last new_comps = ''..'')
           then new_comps @ [cmp]
      else if new_comps \<noteq> [] then butlast new_comps
      else new_comps)"

definition normpath :: "string \<Rightarrow> string" where
  "normpath path =
     (if path = [] then ''.''
      else
        let initial_slashes =
              (if startswith path ''/'' then
                 (if startswith path ''//'' \<and> \<not> startswith path ''///'' then 2 else 1)
               else (0::nat));
            comps = split_sep CHR ''/'' path;
            new_comps = foldl (norm_step initial_slashes) [] comps;
            p = replicate initial_slashes CHR ''/'' @ join_sep new_comps
        in if p = [] then ''.'' else p)"

definition abspath :: "string \<Rightarrow> string \<Rightarrow> string" where
  "abspath cwd path =
     (if \<not> startswith path ''/'' then normpath (join cwd path) else normpath path)"

section \<open>The path guard\<close>

definition safe_path :: "settings \<Rightarrow> string \<Rightarrow> string \<Rightarrow> exn + string" where
  "safe_path cfg cwd path =
     (let abs_path = abspath cwd path in
      if truthy (MCP_BASE_PATH cfg) then
        (let base_path = abspath cwd (the (MCP_BASE_PATH cfg)) in
         if \<not> startswith abs_path base_path then Inl (HTTPException 403)
         else Inr abs_path)
      else Inr abs_path)"

section \<open>The file system and the operating-system calls\<close>

text \<open>
  The file system is a tree of regular files and directories, unchanged while a request
  runs. A file carries its modification time and its bytes, a directory its modification
  time and its entries in the order in which the system enumerates them. Symbolic links,
  special files and permissions are outside the model, so the only way a system call
  fails is on a missing path or on a path of the wrong kind.
\<close>

datatype node =
    File nat bytes
  | Dir nat "(string \<times> node) list"

fun is_Dir :: "node \<Rightarrow> bool" where
  "is_Dir (Dir _ _) = True"
| "is_Dir (File _ _) = False"

text \<open>
  The codec registry maps an encoding name to a decoder, \<open>None\<close> for a name that is not
  a text encoding (\<^verbatim>\<open>open\<close> raises \<^verbatim>\<open>LookupError\<close>). A decoder returns \<open>None\<close>
  where it raises \<^verbatim>\<open>UnicodeDecodeError\<close>; a codec that raises any other exception
  while decoding is not in the model.
\<close>

type_synonym decoder = "bytes \<Rightarrow> unicode option"

text \<open>
  The response model \<^verbatim>\<open>FileInfo\<close> declares \<^verbatim>\<open>modified: Optional[str]\<close>, and the
  handlers pass it the number \<^verbatim>\<open>st_mtime\<close>. What the validation of the model does
  with a number in a string field depends on the installed validation library, which the
  repository does not fix: it either stores a string made from the number or raises
  \<^verbatim>\<open>ValidationError\<close>. That behaviour is the parameter \<open>validate_modified\<close>:
  \<open>Some s\<close> for the stored string, \<open>None\<close> for the raise.
\<close>

record world =
  cwd :: string
  root :: node
  codecs :: "string \<Rightarrow> decoder option"
  validate_modified :: "nat \<Rightarrow> string option"

text \<open>Path resolution from the root directory, one component at a time.\<close>

fun descend :: "node \<Rightarrow> string list \<Rightarrow> node option" where
  "descend t [] = Some t"
| "descend (File _ _) (c # cs) = None"
| "descend (Dir _ es) (c # cs) =
     (case map_of es c of None \<Rightarrow> None | Some t \<Rightarrow> descend t cs)"

definition components :: "string \<Rightarrow> string list" where
  "components p = filter (\<lambda>c. c \<noteq> []) (split_sep CHR ''/'' p)"

definition lookup :: "world \<Rightarrow> string \<Rightarrow> node option" where
  "lookup w p = descend (root w) (components p)"

definition os_path_exists :: "world \<Rightarrow> string \<Rightarrow> bool" where
  "os_path_exists w p = (lookup w p \<noteq> None)"

definition os_path_isdir :: "world \<Rightarrow> string \<Rightarrow> bool" where
  "os_path_isdir w p = (case lookup w p of Some t \<Rightarrow> is_Dir t | None \<Rightarrow> False)"

record stat_result =
  st_size :: nat
  st_mtime :: nat

text \<open>The handlers never read \<open>st_size\<close> of a directory; the model puts 0 there.\<close>

definition os_stat :: "world \<Rightarrow> string \<Rightarrow> exn + stat_result" where
  "os_stat w p =
     (case lookup w p of
        None \<Rightarrow> Inl FileNotFoundError
      | Some (File m d) \<Rightarrow> Inr \<lparr>st_size = length d, st_mtime = m\<rparr>
      | Some (Dir m es) \<Rightarrow> Inr \<lparr>st_size = 0, st_mtime = m\<rparr>)"

definition os_listdir :: "world \<Rightarrow> string \<Rightarrow> exn + string list" where
  "os_listdir w p =
     (case lookup w p of
        None \<Rightarrow> Inl FileNotFoundError
      | Some (File m d) \<Rightarrow> Inl NotADirectoryError
      | Some (Dir m es) \<Rightarrow> Inr (map fst es))"

text \<open>
  \<^verbatim>\<open>os.walk(top)\<close> (\<open>tp\<close> below), top-down, links not followed, errors of the directory scan
  ignored (its defaults): one triple per directory, the directory itself first, then the
  walks of its subdirectories in order. On a regular file the scan fails and the walk is
  empty.
\<close>

definition dirnames :: "(string \<times> node) list \<Rightarrow> string list" where
  "dirnames es = map fst (filter (\<lambda>e. is_Dir (snd e)) es)"

definition filenames :: "(string \<times> node) list \<Rightarrow> string list" where
  "filenames es = map fst (filter (\<lambda>e. \<not> is_Dir (snd e)) es)"

fun os_walk_node :: "string \<Rightarrow> node \<Rightarrow> (string \<times> string list \<times> string list) list" where
  "os_walk_node tp (File m d) = []"
| "os_walk_node tp (Dir m es) =
     (tp, dirnames es, filenames es)
       # concat (map (\<lambda>e. os_walk_node (join tp (fst e)) (snd e))
                     (filter (\<lambda>e. is_Dir (snd e)) es))"

definition os_walk :: "world \<Rightarrow> string \<Rightarrow> (string \<times> string list \<times> string list) list" where
  "os_walk w tp = (case lookup w tp of None \<Rightarrow> [] | Some t \<Rightarrow> os_walk_node tp t)"

section \<open>Text decoding and base64\<close>

text \<open>
  Text mode of \<^verbatim>\<open>open\<close> with the default \<^verbatim>\<open>newline=None\<close>: after decoding,
  \<^verbatim>\<open>\r\n\<close> and a lone \<^verbatim>\<open>\r\<close> are returned as \<^verbatim>\<open>\n\<close>.
\<close>

fun universal_newlines :: "unicode \<Rightarrow> unicode" where
  "universal_newlines [] = []"
| "universal_newlines [x] = [if x = 13 then 10 else x]"
| "universal_newlines (x # y # zs) =
     (if x = 13 \<and> y = 10 then 10 # universal_newlines zs
      else (if x = 13 then 10 else x) # universal_newlines (y # zs))"

definition open_read_text :: "world \<Rightarrow> string \<Rightarrow> string \<Rightarrow> exn + unicode" where
  "open_read_text w p enc =
     (case lookup w p of
        None \<Rightarrow> Inl FileNotFoundError
      | Some (Dir m es) \<Rightarrow> Inl NotADirectoryError
      | Some (File m d) \<Rightarrow>
          (case codecs w enc of
             None \<Rightarrow> Inl LookupError
           | Some dec \<Rightarrow>
               (case dec d of
                  None \<Rightarrow> Inl UnicodeDecodeError
                | Some txt \<Rightarrow> Inr (universal_newlines txt))))"

definition open_read_bytes :: "world \<Rightarrow> string \<Rightarrow> exn + bytes" where
  "open_read_bytes w p =
     (case lookup w p of
        None \<Rightarrow> Inl FileNotFoundError
      | Some (Dir m es) \<Rightarrow> Inl NotADirectoryError
      | Some (File m d) \<Rightarrow> Inr d)"

text \<open>\<^verbatim>\<open>bytes.decode("ascii")\<close>.\<close>

definition decode_ascii :: "bytes \<Rightarrow> exn + unicode" where
  "decode_ascii bs =
     (if list_all (\<lambda>b. (of_char b :: nat) < 128) bs then Inr (map of_char bs)
      else Inl UnicodeDecodeError)"

text \<open>The base64 alphabet of RFC 4648: the character of a 6-bit value.\<close>

definition b64_char :: "nat \<Rightarrow> char" where
  "b64_char i =
     (if i < 26 then char_of (65 + i)
      else if i < 52 then char_of (97 + (i - 26))
      else if i < 62 then char_of (48 + (i - 52))
      else if i = 62 then CHR ''+''
      else CHR ''/'')"

text \<open>\<^verbatim>\<open>base64.b64encode\<close>: three bytes give four characters, the tail is padded.\<close>

fun b64encode :: "bytes \<Rightarrow> bytes" where
  "b64encode [] = []"
| "b64encode [a] =
     (let x = (of_char a :: nat) in
      [b64_char (x div 4), b64_char ((x mod 4) * 16), CHR ''='', CHR ''=''])"
| "b64encode [a, b] =
     (let x = (of_char a :: nat); y = (of_char b :: nat) in
      [b64_char (x div 4), b64_char ((x mod 4) * 16 + y div 16),
       b64_char ((y mod 16) * 4), CHR ''=''])"
| "b64encode (a # b # c # rest) =
     (let x = (of_char a :: nat); y = (of_char b :: nat); z = (of_char c :: nat) in
      [b64_char (x div 4), b64_char ((x mod 4) * 16 + y div 16),
       b64_char ((y mod 16) * 4 + z div 64), b64_char (z mod 64)]
      @ b64encode rest)"

text \<open>The inverse reading of the alphabet and the decoding of padded base64 text.\<close>

definition b64_value :: "char \<Rightarrow> nat option" where
  "b64_value ch =
     (let n = (of_char ch :: nat) in
      if 65 \<le> n \<and> n < 91 then Some (n - 65)
      else if 97 \<le> n \<and> n < 123 then Some (n - 97 + 26)
      else if 48 \<le> n \<and> n < 58 then Some (n - 48 + 52)
      else if ch = CHR ''+'' then Some 62
      else if ch = CHR ''/'' then Some 63
      else None)"

fun b64decode :: "bytes \<Rightarrow> bytes option" where
  "b64decode [] = Some []"
| "b64decode (p # q # r # s # rest) =
     (case (b64_value p, b64_value q) of
        (Some i, Some j) \<Rightarrow>
          (if rest = [] \<and> r = CHR ''='' \<and> s = CHR ''='' then
             Some [char_of (i * 4 + j div 16)]
           else
             (case b64_value r of
                None \<Rightarrow> None
              | Some k \<Rightarrow>
                  (if rest = [] \<and> s = CHR ''='' then
                     Some [char_of (i * 4 + j div 16), char_of ((j mod 16) * 16 + k div 4)]
                   else
                     (case (b64_value s, b64decode rest) of
                        (Some l, Some bs) \<Rightarrow>
                          Some (char_of (i * 4 + j div 16)
                                # char_of ((j mod 16) * 16 + k div 4)
                                # char_of ((k mod 4) * 64 + l) # bs)
                      | _ \<Rightarrow> None))))
      | _ \<Rightarrow> None)"
| "b64decode _ = None"

text \<open>
  Strict UTF-8 decoding, read one byte at a time: \<open>need\<close> continuation bytes are still
  expected for the code point whose high bits are \<open>acc\<close>, and \<open>lo\<close> is the least code
  point the current length may encode. Overlong forms, surrogates and values above
  \<^verbatim>\<open>U+10FFFF\<close> are errors.
\<close>

fun utf8_run :: "nat \<Rightarrow> nat \<Rightarrow> nat \<Rightarrow> bytes \<Rightarrow> unicode option" where
  "utf8_run need acc lo [] = (if need = 0 then Some [] else None)"
| "utf8_run need acc lo (b # bs) =
     (let n = (of_char b :: nat) in
      if need = 0 then
        (if n < 128 then map_option ((#) n) (utf8_run 0 0 0 bs)
         else if 194 \<le> n \<and> n < 224 then utf8_run 1 (n - 192) 128 bs
         else if 224 \<le> n \<and> n < 240 then utf8_run 2 (n - 224) 2048 bs
         else if 240 \<le> n \<and> n < 245 then utf8_run 3 (n - 240) 65536 bs
         else None)
      else if 128 \<le> n \<and> n < 192 then
        (let acc' = acc * 64 + (n - 128) in
         if need = 1 then
           (if lo \<le> acc' \<and> acc' \<le> 1114111 \<and> \<not> (55296 \<le> acc' \<and> acc' \<le> 57343)
            then map_option ((#) acc') (utf8_run 0 0 0 bs)
            else None)
         else utf8_run (need - 1) acc' lo bs)
      else None)"

definition decode_utf8 :: decoder where
  "decode_utf8 bs = utf8_run 0 0 0 bs"

definition decode_latin1 :: decoder where
  "decode_latin1 bs = Some (map of_char bs)"

definition decode_ascii_opt :: decoder where
  "decode_ascii_opt bs = (case decode_ascii bs of Inl e \<Rightarrow> None | Inr t \<Rightarrow> Some t)"

text \<open>A fragment of the standard codec registry, for running the handlers.\<close>

definition std_codecs :: "string \<Rightarrow> decoder option" where
  "std_codecs enc =
     (if enc = ''utf-8'' then Some decode_utf8
      else if enc = ''ascii'' then Some decode_ascii_opt
      else if enc = ''latin-1'' then Some decode_latin1
      else None)"

section \<open>The request handlers\<close>

text \<open>
  The request and response models. Field names that several models share carry a suffix:
  \<open>path_list\<close> is \<^verbatim>\<open>FileListRequest.path\<close>, \<open>path_info\<close> and \<open>size_info\<close> are
  \<^verbatim>\<open>FileInfo.path\<close> and \<^verbatim>\<open>FileInfo.size\<close>, \<open>encoding_resp\<close> is
  \<^verbatim>\<open>FileContentResponse.encoding\<close>.
\<close>

record FileRequest =
  path :: string
  encoding :: "string option"

record FileListRequest =
  path_list :: string
  recursive :: "bool option"

record FileInfo =
  name :: string
  path_info :: string
  is_dir :: bool
  size_info :: "nat option"
  modified :: "string option"

record FileListResponse =
  files :: "FileInfo list"

record FileContentResponse =
  content :: unicode
  encoding_resp :: string

text \<open>
  The call \<^verbatim>\<open>FileInfo(name=.., path=.., is_dir=.., size=.., modified=stat.st_mtime)\<close>.
  The first four arguments have the declared types; the last one is a number given to a
  string field, so the call raises where the validation refuses it.
\<close>

definition new_FileInfo ::
  "world \<Rightarrow> string \<Rightarrow> string \<Rightarrow> bool \<Rightarrow> nat option \<Rightarrow> nat \<Rightarrow> exn + FileInfo" where
  "new_FileInfo w n p d sz mt =
     (case validate_modified w mt of
        None \<Rightarrow> Inl ValidationError
      | Some s \<Rightarrow>
          Inr \<lparr>name = n, path_info = p, is_dir = d, size_info = sz, modified = Some s\<rparr>)"

text \<open>A \<^verbatim>\<open>for\<close> loop that appends one value per element and stops at the first raise.\<close>

fun collect :: "('a \<Rightarrow> exn + 'b) \<Rightarrow> 'a list \<Rightarrow> exn + 'b list" where
  "collect f [] = Inr []"
| "collect f (x # xs) =
     (case f x of
        Inl e \<Rightarrow> Inl e
      | Inr y \<Rightarrow> (case collect f xs of Inl e \<Rightarrow> Inl e | Inr ys \<Rightarrow> Inr (y # ys)))"

text \<open>
  The \<^verbatim>\<open>except Exception\<close> clause of both handlers: an \<^verbatim>\<open>HTTPException\<close> is
  raised again, anything else becomes status 500.
\<close>

fun reraise :: "exn + 'a \<Rightarrow> exn + 'a" where
  "reraise (Inr v) = Inr v"
| "reraise (Inl (HTTPException c)) = Inl (HTTPException c)"
| "reraise (Inl e) = Inl (HTTPException 500)"

text \<open>The bodies of the two inner loops of the recursive listing.\<close>

definition dir_entry :: "world \<Rightarrow> string \<Rightarrow> string \<Rightarrow> exn + FileInfo" where
  "dir_entry w rt dir_name =
     (let dir_path = join rt dir_name in
      case os_stat w dir_path of
        Inl e \<Rightarrow> Inl e
      | Inr stat \<Rightarrow> new_FileInfo w dir_name dir_path True None (st_mtime stat))"

definition file_entry :: "world \<Rightarrow> string \<Rightarrow> string \<Rightarrow> exn + FileInfo" where
  "file_entry w rt file_name =
     (let file_path = join rt file_name in
      case os_stat w file_path of
        Inl e \<Rightarrow> Inl e
      | Inr stat \<Rightarrow>
          new_FileInfo w file_name file_path False (Some (st_size stat)) (st_mtime stat))"

definition walk_entries ::
  "world \<Rightarrow> string \<times> string list \<times> string list \<Rightarrow> exn + FileInfo list" where
  "walk_entries w tr =
     (case tr of (rt, dirs, fnames) \<Rightarrow>
        (case collect (dir_entry w rt) dirs of
           Inl e \<Rightarrow> Inl e
         | Inr ds \<Rightarrow>
             (case collect (file_entry w rt) fnames of
                Inl e \<Rightarrow> Inl e
              | Inr fs \<Rightarrow> Inr (ds @ fs))))"

text \<open>The body of the loop of the non-recursive listing.\<close>

definition item_entry :: "world \<Rightarrow> string \<Rightarrow> string \<Rightarrow> exn + FileInfo" where
  "item_entry w p item =
     (let item_path = join p item;
          isd = os_path_isdir w item_path in
      case os_stat w item_path of
        Inl e \<Rightarrow> Inl e
      | Inr stat \<Rightarrow>
          new_FileInfo w item item_path isd
            (if isd then None else Some (st_size stat)) (st_mtime stat))"

definition list_files :: "settings \<Rightarrow> world \<Rightarrow> FileListRequest \<Rightarrow> exn + FileListResponse" where
  "list_files cfg w request = reraise
     (case safe_path cfg (cwd w) (path_list request) of
        Inl e \<Rightarrow> Inl e
      | Inr p \<Rightarrow>
          if \<not> os_path_exists w p then Inl (HTTPException 404)
          else if recursive request = Some True then
            (case collect (walk_entries w) (os_walk w p) of
               Inl e \<Rightarrow> Inl e
             | Inr fss \<Rightarrow> Inr \<lparr>files = concat fss\<rparr>)
          else
            (case os_listdir w p of
               Inl e \<Rightarrow> Inl e
             | Inr items \<Rightarrow>
                 (case collect (item_entry w p) items of
                    Inl e \<Rightarrow> Inl e
                  | Inr fs \<Rightarrow> Inr \<lparr>files = fs\<rparr>)))"

definition read_file :: "settings \<Rightarrow> world \<Rightarrow> FileRequest \<Rightarrow> exn + FileContentResponse" where
  "read_file cfg w request = reraise
     (case safe_path cfg (cwd w) (path request) of
        Inl e \<Rightarrow> Inl e
      | Inr p \<Rightarrow>
          if \<not> os_path_exists w p then Inl (HTTPException 404)
          else if os_path_isdir w p then Inl (HTTPException 400)
          else
            (let enc = or_default (encoding request) ''utf-8'' in
             case open_read_text w p enc of
               Inr txt \<Rightarrow> Inr \<lparr>content = txt, encoding_resp = enc\<rparr>
             | Inl UnicodeDecodeError \<Rightarrow>
                 (case open_read_bytes w p of
                    Inl e \<Rightarrow> Inl e
                  | Inr binary_content \<Rightarrow>
                      (case decode_ascii (b64encode binary_content) of
                         Inl e \<Rightarrow> Inl e
                       | Inr base64_content \<Rightarrow>
                           Inr \<lparr>content = base64_content, encoding_resp = ''base64''\<rparr>))
             | Inl e \<Rightarrow> Inl e))"

text \<open>
  The routes run \<open>get_api_key\<close> as a dependency before the handler; when it raises,
  the handler is not called.
\<close>

definition post_list ::
  "settings \<Rightarrow> world \<Rightarrow> string option \<Rightarrow> FileListRequest \<Rightarrow> exn + FileListResponse" where
  "post_list cfg w hdr request =
     (case get_api_key cfg hdr of Inl e \<Rightarrow> Inl e | Inr k \<Rightarrow> list_files cfg w request)"

definition post_read ::
  "settings \<Rightarrow> world \<Rightarrow> string option \<Rightarrow> FileRequest \<Rightarrow> exn + FileContentResponse" where
  "post_read cfg w hdr request =
     (case get_api_key cfg hdr of Inl e \<Rightarrow> Inl e | Inr k \<Rightarrow> read_file cfg w request)"

section \<open>Directory trees: what a listing is measured against\<close>

text \<open>
  The invariants every file system keeps: an entry name is not empty and has no slash, and
  the names inside one directory are pairwise different.
\<close>

definition valid_name :: "string \<Rightarrow> bool" where
  "valid_name n = (n \<noteq> [] \<and> CHR ''/'' \<notin> set n)"

fun wf_node :: "node \<Rightarrow> bool" where
  "wf_node (File m d) = True"
| "wf_node (Dir m es) =
     (distinct (map fst es) \<and> (\<forall>e\<in>set es. valid_name (fst e) \<and> wf_node (snd e)))"



fun mtime_of :: "node \<Rightarrow> nat" where
  "mtime_of (File m d) = m"
| "mtime_of (Dir m es) = m"

fun size_of :: "node \<Rightarrow> nat option" where
  "size_of (File m d) = Some (length d)"
| "size_of (Dir m es) = None"

text \<open>The response model stores a string for every time stamp it is given.\<close>

definition accepts_timestamps :: "world \<Rightarrow> bool" where
  "accepts_timestamps w = (\<forall>x. validate_modified w x \<noteq> None)"

text \<open>
  The record that describes the node \<open>t\<close> found under the path \<open>p\<close> by following the
  names \<open>ns\<close>: its path is \<open>p\<close> joined with each name in turn, its time stamp is
  the string the response model stores for the modification time of the node.
\<close>

definition entry_for :: "world \<Rightarrow> string \<Rightarrow> string list \<Rightarrow> node \<Rightarrow> FileInfo" where
  "entry_for w p ns t =
     \<lparr>name = last ns, path_info = foldl join p ns, is_dir = is_Dir t,
      size_info = size_of t, modified = validate_modified w (mtime_of t)\<rparr>"


section \<open>A small file system for running the handlers\<close>

text \<open>
  A root directory with the sandbox \<^verbatim>\<open>/data\<close> (a text file, a subdirectory holding
  a binary file, an empty directory) and its sibling \<^verbatim>\<open>/data2\<close>.
\<close>

definition example_root :: node where
  "example_root =
     Dir 1
       [(''data'',
           Dir 2
             [(''a.txt'', File 3 ''hello\<newline>''),
              (''sub'', Dir 4 [(''b.bin'', File 5 [CHR 0xFF, CHR 0x00, CHR 0x10])]),
              (''empty'', Dir 6 [])]),
        (''data2'', Dir 7 [(''secret'', File 8 ''s3'')])]"

text \<open>
  A response model that turns a number into its decimal digits, and one that refuses every
  number.
\<close>

fun decimal :: "nat \<Rightarrow> string" where
  "decimal n =
     (if n < 10 then [''0123456789'' ! n]
      else decimal (n div 10) @ [''0123456789'' ! (n mod 10)])"

declare decimal.simps [simp del]

definition coercing :: "nat \<Rightarrow> string option" where
  "coercing x = Some (decimal x)"

definition refusing :: "nat \<Rightarrow> string option" where
  "refusing x = None"

definition example_world :: world where
  "example_world =
     \<lparr>cwd = ''/srv'', root = example_root, codecs = std_codecs,
      validate_modified = coercing\<rparr>"

definition strict_world :: world where
  "strict_world =
     \<lparr>cwd = ''/srv'', root = example_root, codecs = std_codecs,
      validate_modified = refusing\<rparr>"

definition sandboxed :: settings where
  "sandboxed = \<lparr>MCP_API_KEY = None, MCP_BASE_PATH = Some ''/data''\<rparr>"

definition unrestricted :: settings where
  "unrestricted = \<lparr>MCP_API_KEY = None, MCP_BASE_PATH = None\<rparr>"

section \<open>Unfolding rules for running the model\<close>

lemmas path_defs =
  safe_path_def abspath_def normpath_def startswith_def endswith_def norm_step_def join_def

lemmas fs_defs =
  lookup_def components_def os_path_exists_def os_path_isdir_def os_stat_def os_listdir_def
  os_walk_def open_read_text_def open_read_bytes_def dirnames_def filenames_def

lemmas example_defs =
  example_world_def strict_world_def example_root_def sandboxed_def unrestricted_def
  coercing_def refusing_def

section \<open>The path guard: properties\<close>

text \<open>
  Claim C1 asks that a path outside the root is refused, the sibling \<^verbatim>\<open>/data2/secret\<close>
  of the root \<^verbatim>\<open>/data\<close> included. The guard compares characters, not path segments:
  at that input it returns the path instead of raising status 403, and \<open>read_file\<close>
  serves the file.
\<close>

theorem safe_path_admits_sibling:
  "safe_path sandboxed (cwd example_world) ''/data2/secret'' = Inr ''/data2/secret'' \<and>
   read_file sandboxed example_world \<lparr>path = ''/data2/secret'', encoding = None\<rparr>
     = Inr \<lparr>content = [115, 51], encoding_resp = ''utf-8''\<rparr>"
  by (simp add: read_file_def path_defs example_defs fs_defs std_codecs_def decode_utf8_def)

section \<open>The access gate: properties\<close>

text \<open>
  Claim C9. When the configured secret is the empty string, \<open>get_api_key\<close> allows every
  request, whatever the credential header holds (also a missing one), exactly as it does
  when no secret is configured at all.
\<close>

theorem get_api_key_empty_secret:
  "get_api_key (cfg\<lparr>MCP_API_KEY := Some []\<rparr>) hdr = Inr None \<and>
   get_api_key (cfg\<lparr>MCP_API_KEY := Some []\<rparr>) hdr
     = get_api_key (cfg\<lparr>MCP_API_KEY := None\<rparr>) hdr"
  by (simp add: get_api_key_def)

text \<open>
  Claim C2, as stated, asks that with a secret configured a request is allowed only when
  the header equals the secret. With the empty string configured as secret, a request with
  no header at all is allowed.
\<close>

theorem get_api_key_empty_secret_allows_missing:
  "get_api_key \<lparr>MCP_API_KEY = Some [], MCP_BASE_PATH = None\<rparr> None = Inr None"
  by (simp add: get_api_key_def)

text \<open>
  Claim C2, amended. When no secret is configured, \<open>get_api_key\<close> allows every request
  regardless of the credential header. When a non-empty secret is configured, it allows a
  request if and only if the header is present and equal to the secret, and raises status
  403 otherwise.
\<close>

theorem get_api_key_gate:
  "(MCP_API_KEY cfg = None \<longrightarrow> get_api_key cfg hdr = Inr None) \<and>
   (MCP_API_KEY cfg = Some s \<and> s \<noteq> [] \<longrightarrow>
      get_api_key cfg hdr = (if hdr = Some s then Inr hdr else Inl (HTTPException 403)))"
  by (auto simp add: get_api_key_def)

theorem get_api_key_gate_witness:
  "get_api_key \<lparr>MCP_API_KEY = None, MCP_BASE_PATH = None\<rparr> (Some ''guess'') = Inr None \<and>
   get_api_key \<lparr>MCP_API_KEY = Some ''k3y'', MCP_BASE_PATH = None\<rparr> (Some ''k3y'')
     = Inr (Some ''k3y'') \<and>
   get_api_key \<lparr>MCP_API_KEY = Some ''k3y'', MCP_BASE_PATH = None\<rparr> (Some ''k3'')
     = Inl (HTTPException 403) \<and>
   get_api_key \<lparr>MCP_API_KEY = Some ''k3y'', MCP_BASE_PATH = None\<rparr> None
     = Inl (HTTPException 403)"
  using get_api_key_gate [of "\<lparr>MCP_API_KEY = None, MCP_BASE_PATH = None\<rparr>" "Some ''guess''" "[]"]
        get_api_key_gate [of "\<lparr>MCP_API_KEY = Some ''k3y'', MCP_BASE_PATH = None\<rparr>"
                             "Some ''k3y''" "''k3y''"]
        get_api_key_gate [of "\<lparr>MCP_API_KEY = Some ''k3y'', MCP_BASE_PATH = None\<rparr>"
                             "Some ''k3''" "''k3y''"]
        get_api_key_gate [of "\<lparr>MCP_API_KEY = Some ''k3y'', MCP_BASE_PATH = None\<rparr>"
                             "None" "''k3y''"]
  by simp

section \<open>Base64: decoding inverts encoding\<close>

lemma of_char_lt_256: "(of_char c :: nat) < 256"
proof -
  have "(of_char c :: nat) mod 256 < 256" by simp
  then show ?thesis by (simp only: of_char_mod_256)
qed

lemma b64_char_ascii: "(of_char (b64_char i) :: nat) < 128"
  by (auto simp add: b64_char_def)

lemma b64_char_not_pad: "b64_char i \<noteq> CHR ''=''"
proof
  assume "b64_char i = CHR ''=''"
  then have "(of_char (b64_char i) :: nat) = of_char CHR ''=''" by simp
  then show False by (auto simp add: b64_char_def split: if_splits)
qed

lemma b64_value_char: "i < 64 \<Longrightarrow> b64_value (b64_char i) = Some i"
  by (auto simp add: b64_value_def b64_char_def Let_def)

lemma b64_first: "(x::nat) < 256 \<Longrightarrow> x div 4 < 64"
  by simp

lemma b64_second: "(y::nat) < 256 \<Longrightarrow> (x mod 4) * 16 + y div 16 < 64"
proof -
  assume "y < 256"
  then have "y div 16 < 16" by simp
  moreover have "x mod 4 < 4" by simp
  ultimately show ?thesis by linarith
qed
lemma b64_third: "(z::nat) < 256 \<Longrightarrow> (y mod 16) * 4 + z div 64 < 64"
proof -
  assume "z < 256"
  then have "z div 64 < 4" by simp
  moreover have "y mod 16 < 16" by simp
  ultimately show ?thesis by linarith
qed

lemma b64_byte1: "(y::nat) < 256 \<Longrightarrow> x div 4 * 4 + ((x mod 4) * 16 + y div 16) div 16 = x"
proof -
  assume "y < 256"
  then have "y div 16 < 16" by simp
  then have "((x mod 4) * 16 + y div 16) div 16 = x mod 4" by simp
  then show ?thesis by simp
qed

lemma b64_byte2: "(y::nat) < 256 \<Longrightarrow> (z::nat) < 256 \<Longrightarrow>
  (((x mod 4) * 16 + y div 16) mod 16) * 16 + ((y mod 16) * 4 + z div 64) div 4 = y"
proof -
  assume "y < 256" "z < 256"
  then have a: "y div 16 < 16" and b: "z div 64 < 4" by simp_all
  from a have "((x mod 4) * 16 + y div 16) mod 16 = y div 16" by simp
  moreover from b have "((y mod 16) * 4 + z div 64) div 4 = y mod 16" by simp
  ultimately show ?thesis by simp
qed

lemma b64_byte3: "(z::nat) < 256 \<Longrightarrow> (((y mod 16) * 4 + z div 64) mod 4) * 64 + z mod 64 = z"
proof -
  assume "z < 256"
  then have b: "z div 64 < 4" by simp
  then have "((y mod 16) * 4 + z div 64) mod 4 = z div 64" by simp
  then show ?thesis by simp
qed

lemma b64_roundtrip: "b64decode (b64encode bs) = Some bs"
proof (induction bs rule: b64encode.induct)
  case 1
  show ?case by simp
next
  case (2 a)
  have x: "(of_char a :: nat) < 256" by (rule of_char_lt_256)
  show ?case
    using b64_byte1[of 0 "of_char a"]
    by (simp add: Let_def b64_value_char b64_first[OF x] b64_second[of 0])
next
  case (3 a b)
  have x: "(of_char a :: nat) < 256" and y: "(of_char b :: nat) < 256" by (rule of_char_lt_256)+
  show ?case
    using b64_byte1[OF y, of "of_char a"] b64_byte2[OF y, of 0 "of_char a"]
    by (simp add: Let_def b64_value_char b64_first[OF x] b64_second[OF y] b64_third[of 0] b64_char_not_pad)
next
  case (4 a b c rest)
  have x: "(of_char a :: nat) < 256" and y: "(of_char b :: nat) < 256" and z: "(of_char c :: nat) < 256"
    by (rule of_char_lt_256)+
  show ?case
    using 4 b64_byte1[OF y, of "of_char a"] b64_byte2[OF y z, of "of_char a"] b64_byte3[OF z, of "of_char b"]
    by (simp add: Let_def b64_value_char b64_first[OF x] b64_second[OF y] b64_third[OF z] b64_char_not_pad)
qed

lemma b64encode_ascii: "list_all (\<lambda>b. (of_char b :: nat) < 128) (b64encode bs)"
  by (induction bs rule: b64encode.induct) (simp_all add: Let_def b64_char_ascii)

lemma decode_ascii_b64: "decode_ascii (b64encode bs) = Inr (map of_char (b64encode bs))"
  by (simp add: decode_ascii_def b64encode_ascii)

section \<open>Reading a file: properties\<close>

lemma collect_Inl: "collect f xs = Inl e \<Longrightarrow> \<exists>x\<in>set xs. f x = Inl e"
  by (induction xs) (auto split: sum.splits)

lemma collect_Inr_all:
  "collect f xs = Inr ys \<Longrightarrow> (\<And>x y. f x = Inr y \<Longrightarrow> P y) \<Longrightarrow> \<forall>y\<in>set ys. P y"
  by (induction xs arbitrary: ys) (auto split: sum.splits)

lemma reraise_Inr: "reraise r = Inr v \<Longrightarrow> r = Inr v"
  by (cases r rule: reraise.cases) auto

lemma universal_newlines_id: "13 \<notin> set t \<Longrightarrow> universal_newlines t = t"
  by (induction t rule: universal_newlines.induct) auto

lemma read_file_regular:
  assumes "safe_path cfg (cwd w) (path rq) = Inr p" "lookup w p = Some (File m d)"
  shows "read_file cfg w rq =
    (case codecs w (or_default (encoding rq) ''utf-8'') of
       None \<Rightarrow> Inl (HTTPException 500)
     | Some dec \<Rightarrow> (case dec d of
          Some txt \<Rightarrow> Inr \<lparr>content = universal_newlines txt,
                          encoding_resp = or_default (encoding rq) ''utf-8''\<rparr>
        | None \<Rightarrow> Inr \<lparr>content = map of_char (b64encode d), encoding_resp = ''base64''\<rparr>))"
  using assms
  by (simp add: read_file_def os_path_exists_def os_path_isdir_def open_read_text_def
      open_read_bytes_def decode_ascii_b64 Let_def split: option.splits)

text \<open>
  Claim C10. For an existing regular file inside the sandbox, a requested encoding name
  that the codec registry does not know makes \<open>read_file\<close> raise status 500: the
  \<^verbatim>\<open>LookupError\<close> is not a \<^verbatim>\<open>UnicodeDecodeError\<close>, so the base64 branch is
  not entered, and it is not answered with status 400 either.
\<close>

theorem read_file_unknown_encoding:
  assumes "safe_path cfg (cwd w) (path rq) = Inr p"
    and "lookup w p = Some (File m d)"
    and "codecs w (or_default (encoding rq) ''utf-8'') = None"
  shows "read_file cfg w rq = Inl (HTTPException 500)"
  using assms by (simp add: read_file_regular)

text \<open>
  Claim C4. For an existing regular file whose bytes the decoder of the requested encoding
  (UTF-8 when none is requested) rejects, \<open>read_file\<close> returns the label
  \<^verbatim>\<open>base64\<close> and, as content, the base64 text of all the bytes of the file; decoding
  that content as base64 gives back exactly the bytes of the file.
\<close>

theorem read_file_base64_fallback:
  assumes "safe_path cfg (cwd w) (path rq) = Inr p"
    and "lookup w p = Some (File m d)"
    and "codecs w (or_default (encoding rq) ''utf-8'') = Some dec"
    and "dec d = None"
  shows "read_file cfg w rq
           = Inr \<lparr>content = map of_char (b64encode d), encoding_resp = ''base64''\<rparr> \<and>
         b64decode (map char_of (map of_char (b64encode d) :: unicode)) = Some d"
  using assms by (simp add: read_file_regular b64_roundtrip)

text \<open>
  Claim C5, amended. For an existing regular file whose bytes decode under the requested
  encoding (UTF-8 when none is requested), \<open>read_file\<close> returns the decoded text, with
  the line ends \<^verbatim>\<open>\r\n\<close> and \<^verbatim>\<open>\r\<close> turned into \<^verbatim>\<open>\n\<close>, and as label the
  name of the encoding that was used, not the word \<^verbatim>\<open>text\<close>. A text without
  \<^verbatim>\<open>\r\<close> is returned unchanged.
\<close>

theorem read_file_text:
  assumes "safe_path cfg (cwd w) (path rq) = Inr p"
    and "lookup w p = Some (File m d)"
    and "codecs w (or_default (encoding rq) ''utf-8'') = Some dec"
    and "dec d = Some txt"
  shows "read_file cfg w rq
           = Inr \<lparr>content = universal_newlines txt,
                  encoding_resp = or_default (encoding rq) ''utf-8''\<rparr> \<and>
         (13 \<notin> set txt \<longrightarrow> universal_newlines txt = txt)"
  using assms by (simp add: read_file_regular universal_newlines_id)

text \<open>
  Claim C7. For a path that passes the path guard, \<open>read_file\<close> raises status 400 when
  the path exists and is a directory, and status 404 when the path does not exist; in both
  cases no content is returned.
\<close>

theorem read_file_directory_or_missing:
  assumes "safe_path cfg (cwd w) (path rq) = Inr p"
  shows "(os_path_exists w p \<and> os_path_isdir w p \<longrightarrow> read_file cfg w rq = Inl (HTTPException 400)) \<and>
         (\<not> os_path_exists w p \<longrightarrow> read_file cfg w rq = Inl (HTTPException 404))"
  using assms by (simp add: read_file_def)

text \<open>
  Claim C8. In every response of \<open>list_files\<close>, recursive or not, each entry has a
  size if and only if it is not a directory.
\<close>

theorem list_files_size_iff_file:
  assumes "list_files cfg w rq = Inr r"
  shows "\<forall>e\<in>set (files r). (size_info e \<noteq> None) = (\<not> is_dir e)"
proof -
  have d: "\<And>rt n y. dir_entry w rt n = Inr y \<Longrightarrow> (size_info y \<noteq> None) = (\<not> is_dir y)"
    by (auto simp: dir_entry_def new_FileInfo_def Let_def split: sum.splits option.splits)
  have f: "\<And>rt n y. file_entry w rt n = Inr y \<Longrightarrow> (size_info y \<noteq> None) = (\<not> is_dir y)"
    by (auto simp: file_entry_def new_FileInfo_def Let_def split: sum.splits option.splits)
  have i: "\<And>rt n y. item_entry w rt n = Inr y \<Longrightarrow> (size_info y \<noteq> None) = (\<not> is_dir y)"
    by (auto simp: item_entry_def new_FileInfo_def Let_def split: sum.splits option.splits)
  have t: "\<And>tr ys. walk_entries w tr = Inr ys \<Longrightarrow> \<forall>y\<in>set ys. (size_info y \<noteq> None) = (\<not> is_dir y)"
  proof -
    fix tr ys assume a: "walk_entries w tr = Inr ys"
    obtain rt dirs fnames where tr: "tr = (rt, dirs, fnames)" by (cases tr) auto
    from a tr obtain ds fs where ds: "collect (dir_entry w rt) dirs = Inr ds"
      and fs: "collect (file_entry w rt) fnames = Inr fs" and ys: "ys = ds @ fs"
      by (auto simp: walk_entries_def split: sum.splits)
    from collect_Inr_all[OF ds, of "\<lambda>y. (size_info y \<noteq> None) = (\<not> is_dir y)"] d
    have "\<forall>y\<in>set ds. (size_info y \<noteq> None) = (\<not> is_dir y)" by blast
    moreover from collect_Inr_all[OF fs, of "\<lambda>y. (size_info y \<noteq> None) = (\<not> is_dir y)"] f
    have "\<forall>y\<in>set fs. (size_info y \<noteq> None) = (\<not> is_dir y)" by blast
    ultimately show "\<forall>y\<in>set ys. (size_info y \<noteq> None) = (\<not> is_dir y)" using ys by auto
  qed
  from assms obtain p where p: "safe_path cfg (cwd w) (path_list rq) = Inr p"
    by (cases "safe_path cfg (cwd w) (path_list rq)")
       (auto simp: list_files_def dest!: reraise_Inr)
  show ?thesis
  proof (cases "recursive rq = Some True")
    case True
    with assms p obtain fss where c: "collect (walk_entries w) (os_walk w p) = Inr fss"
      and r: "r = \<lparr>files = concat fss\<rparr>"
      by (auto simp: list_files_def dest!: reraise_Inr split: if_splits sum.splits)
    from collect_Inr_all[OF c, of "\<lambda>ys. \<forall>y\<in>set ys. (size_info y \<noteq> None) = (\<not> is_dir y)"] t
    have "\<forall>ys\<in>set fss. \<forall>y\<in>set ys. (size_info y \<noteq> None) = (\<not> is_dir y)" by blast
    with r show ?thesis by auto
  next
    case False
    with assms p obtain items fs where "collect (item_entry w p) items = Inr fs"
      and r: "r = \<lparr>files = fs\<rparr>"
      by (auto simp: list_files_def dest!: reraise_Inr split: if_splits sum.splits)
    from collect_Inr_all[OF this(1), of "\<lambda>y. (size_info y \<noteq> None) = (\<not> is_dir y)"] i
    have "\<forall>y\<in>set fs. (size_info y \<noteq> None) = (\<not> is_dir y)" by blast
    with r show ?thesis by auto
  qed
qed

section \<open>Paths and path resolution\<close>

lemma split_sep_nonempty: "split_sep c xs \<noteq> []"
  by (induction xs) (auto split: list.splits)

lemma split_sep_append: "split_sep c (a @ c # b) = split_sep c a @ split_sep c b"
  using split_sep_nonempty[of c]
  by (induction a) (auto split: list.splits)

lemma split_sep_free: "c \<notin> set n \<Longrightarrow> split_sep c n = [n]"
  by (induction n) (auto split: list.splits)

lemma components_snoc:
  "valid_name n \<Longrightarrow> components (q @ CHR ''/'' # n) = components q @ [n]"
  by (simp add: components_def split_sep_append split_sep_free valid_name_def)

lemma components_trailing: "components (q @ ''/'') = components q"
  by (simp add: components_def split_sep_append)

lemma join_valid:
  assumes "valid_name n" "p \<noteq> []"
  shows "join p n = (if last p = CHR ''/'' then butlast p @ CHR ''/'' # n else p @ CHR ''/'' # n)"
proof -
  from assms(1) have "\<not> prefix ''/'' n" by (cases n) (auto simp: valid_name_def)
  moreover have "suffix ''/'' p = (last p = CHR ''/'')"
    using assms(2) by (cases p rule: rev_cases) (auto simp: suffix_def)
  moreover have "last p = CHR ''/'' \<Longrightarrow> p @ n = butlast p @ CHR ''/'' # n"
    using assms(2) by (cases p rule: rev_cases) auto
  ultimately show ?thesis using assms(2) by (simp add: join_def startswith_def endswith_def)
qed


lemma components_join:
  assumes "valid_name n" "p \<noteq> []"
  shows "components (join p n) = components p @ [n]"
proof (cases "last p = CHR ''/''")
  case True
  with assms(2) have p: "p = butlast p @ ''/''" by (cases p rule: rev_cases) auto
  have "components p = components (butlast p)"
    using components_trailing[of "butlast p"] p by simp
  with True assms show ?thesis by (simp add: join_valid components_snoc)
next
  case False
  with assms show ?thesis by (simp add: join_valid components_snoc)
qed


lemma descend_append:
  "descend t (cs @ ds) = (case descend t cs of None \<Rightarrow> None | Some t' \<Rightarrow> descend t' ds)"
  by (induction t cs rule: descend.induct) (auto split: option.splits)

lemma wf_descend: "wf_node t \<Longrightarrow> descend t cs = Some t' \<Longrightarrow> wf_node t' \<and> list_all valid_name cs"
proof (induction t cs rule: descend.induct)
  case (3 m es c cs)
  from "3.prems" obtain u where u: "map_of es c = Some u" "descend u cs = Some t'"
    by (auto split: option.splits)
  then have "(c, u) \<in> set es" by (auto dest: map_of_SomeD)
  with "3.prems"(1) have "wf_node u" "valid_name c" by auto
  with "3.IH"[OF u(1)] u show ?case by auto
qed auto

lemma lookup_child:
  assumes "lookup w p = Some (Dir m es)" "wf_node (Dir m es)" "p \<noteq> []" "(n, c) \<in> set es"
  shows "lookup w (join p n) = Some c"
proof -
  from assms(2,4) have v: "valid_name n" and mo: "map_of es n = Some c" by auto
  show ?thesis using assms(1) mo
    by (simp add: lookup_def components_join[OF v assms(3)] descend_append)
qed

section \<open>The recursive walk against the directory tree\<close>



lemma stat_child:
  assumes "lookup w p = Some (Dir m es)" "wf_node (Dir m es)" "p \<noteq> []" "(n, c) \<in> set es"
  shows "os_stat w (join p n) = Inr \<lparr>st_size = (case c of File m d \<Rightarrow> length d | Dir m es \<Rightarrow> 0),
                                     st_mtime = mtime_of c\<rparr>"
  using lookup_child[OF assms] by (cases c) (simp_all add: os_stat_def)

lemma new_FileInfo_accepted:
  "accepts_timestamps w \<Longrightarrow>
   new_FileInfo w n p d sz mt =
     Inr \<lparr>name = n, path_info = p, is_dir = d, size_info = sz,
          modified = validate_modified w mt\<rparr>"
  by (auto simp: new_FileInfo_def accepts_timestamps_def split: option.splits)



lemma collect_map_map:
  "(\<And>x. x \<in> set xs \<Longrightarrow> f (k x) = Inr (g x)) \<Longrightarrow> collect f (map k xs) = Inr (map g xs)"
  by (induction xs) auto



















lemma normpath_nonempty: "normpath x \<noteq> []"
  by (simp add: normpath_def Let_def)

lemma safe_path_Inr: "safe_path cfg c x = Inr q \<Longrightarrow> q = abspath c x \<and> q \<noteq> []"
  by (auto simp: safe_path_def abspath_def normpath_nonempty Let_def split: if_splits)




section \<open>Listing and reading without a sandbox root\<close>

lemma os_stat_not_http: "os_stat w p \<noteq> Inl (HTTPException c)"
  by (auto simp: os_stat_def split: option.splits node.splits)

lemma entries_not_http:
  "dir_entry w r n \<noteq> Inl (HTTPException c)"
  "file_entry w r n \<noteq> Inl (HTTPException c)"
  "item_entry w r n \<noteq> Inl (HTTPException c)"
  using os_stat_not_http[of w "join r n" c]
  by (auto simp: dir_entry_def file_entry_def item_entry_def new_FileInfo_def Let_def
      split: sum.splits option.splits)

lemma walk_entries_not_http: "walk_entries w tr \<noteq> Inl (HTTPException c)"
  by (auto simp: walk_entries_def entries_not_http split: prod.splits sum.splits dest!: collect_Inl)

lemma os_listdir_not_http: "os_listdir w p \<noteq> Inl (HTTPException c)"
  by (auto simp: os_listdir_def split: option.splits node.splits)

lemma reraise_other: "(\<And>c. e \<noteq> HTTPException c) \<Longrightarrow> reraise (Inl e) = Inl (HTTPException 500)"
  by (cases e) auto

lemma list_files_exists:
  assumes "safe_path cfg (cwd w) (path_list rq) = Inr p" "os_path_exists w p"
  shows "list_files cfg w rq = Inl (HTTPException 500) \<or> (\<exists>r. list_files cfg w rq = Inr r)"
proof (cases "recursive rq = Some True")
  case True
  show ?thesis
  proof (cases "collect (walk_entries w) (os_walk w p)")
    case (Inl e)
    then obtain x where "walk_entries w x = Inl e" by (auto dest: collect_Inl)
    then have "\<And>c. e \<noteq> HTTPException c" using walk_entries_not_http by metis
    from reraise_other[OF this] Inl True assms show ?thesis by (auto simp add: list_files_def)
  next
    case (Inr fss)
    with True assms show ?thesis by (auto simp add: list_files_def)
  qed
next
  case False
  show ?thesis
  proof (cases "os_listdir w p")
    case (Inl e)
    then have "\<And>c. e \<noteq> HTTPException c" using os_listdir_not_http by metis
    from reraise_other[OF this] Inl False assms show ?thesis by (auto simp add: list_files_def)
  next
    case l: (Inr items)
    show ?thesis
    proof (cases "collect (item_entry w p) items")
      case (Inl e)
      then obtain x where "item_entry w p x = Inl e" by (auto dest: collect_Inl)
      then have "\<And>c. e \<noteq> HTTPException c" using entries_not_http(3) by metis
      from reraise_other[OF this] Inl l False assms show ?thesis by (auto simp add: list_files_def)
    next
      case (Inr fs)
      with l False assms show ?thesis by (auto simp add: list_files_def)
    qed
  qed
qed

lemma read_file_exists:
  assumes "safe_path cfg (cwd w) (path rq) = Inr p" "os_path_exists w p"
  shows "read_file cfg w rq = Inl (HTTPException 500) \<or> read_file cfg w rq = Inl (HTTPException 400)
         \<or> (\<exists>r. read_file cfg w rq = Inr r)"
proof -
  from assms(2) obtain t where t: "lookup w p = Some t" by (auto simp: os_path_exists_def)
  show ?thesis
  proof (cases t)
    case (File m d)
    with t read_file_regular[OF assms(1), of m d] show ?thesis
      by (auto split: option.splits)
  next
    case (Dir m es)
    with t assms show ?thesis by (simp add: read_file_def os_path_isdir_def)
  qed
qed

lemma item_entry_child:
  assumes "lookup w p = Some (Dir m es)" "wf_node (Dir m es)" "p \<noteq> []" "e \<in> set es"
    and acc: "accepts_timestamps w"
  shows "item_entry w p (fst e) = Inr (entry_for w p [fst e] (snd e))"
proof -
  obtain n c where e: "e = (n, c)" by (cases e)
  from lookup_child[OF assms(1-3), of n c] stat_child[OF assms(1-3), of n c] assms(4) e
  show ?thesis
    by (cases c)
       (simp_all add: item_entry_def entry_for_def os_path_isdir_def new_FileInfo_accepted[OF acc])
qed

lemma list_files_flat:
  assumes "safe_path cfg (cwd w) (path_list rq) = Inr p"
    and "lookup w p = Some (Dir m es)"
    and "wf_node (root w)"
    and "recursive rq \<noteq> Some True"
    and acc: "accepts_timestamps w"
  shows "list_files cfg w rq = Inr \<lparr>files = map (\<lambda>e. entry_for w p [fst e] (snd e)) es\<rparr>"
proof -
  from assms(2) have "descend (root w) (components p) = Some (Dir m es)" by (simp add: lookup_def)
  from wf_descend[OF assms(3) this] have wf: "wf_node (Dir m es)" ..
  from assms(1) have ne: "p \<noteq> []" by (simp add: safe_path_Inr)
  have "collect (item_entry w p) (map fst es) = Inr (map (\<lambda>e. entry_for w p [fst e] (snd e)) es)"
    by (rule collect_map_map) (rule item_entry_child[OF assms(2) wf ne _ acc])
  with assms show ?thesis
    by (simp add: list_files_def os_path_exists_def os_listdir_def)
qed

text \<open>
  Claim C6. When no sandbox root is configured, \<open>safe_path\<close> returns the absolute,
  normalised form of any path and refuses nothing. So for a path that exists, wherever it
  lies, neither handler answers 403 or 404.
\<close>

theorem no_root_passthrough:
  assumes "MCP_BASE_PATH cfg = None"
  shows "safe_path cfg (cwd w) x = Inr (abspath (cwd w) x) \<and>
         (os_path_exists w (abspath (cwd w) (path_list rl)) \<longrightarrow>
            list_files cfg w rl \<noteq> Inl (HTTPException 403) \<and>
            list_files cfg w rl \<noteq> Inl (HTTPException 404)) \<and>
         (os_path_exists w (abspath (cwd w) (path rq)) \<longrightarrow>
            read_file cfg w rq \<noteq> Inl (HTTPException 403) \<and>
            read_file cfg w rq \<noteq> Inl (HTTPException 404))"
proof -
  have sp: "safe_path cfg (cwd w) y = Inr (abspath (cwd w) y)" for y
    using assms by (simp add: safe_path_def)
  have l: "list_files cfg w rl \<noteq> Inl (HTTPException 403) \<and> list_files cfg w rl \<noteq> Inl (HTTPException 404)"
    if "os_path_exists w (abspath (cwd w) (path_list rl))"
    using list_files_exists[OF sp that] by auto
  have r: "read_file cfg w rq \<noteq> Inl (HTTPException 403) \<and> read_file cfg w rq \<noteq> Inl (HTTPException 404)"
    if "os_path_exists w (abspath (cwd w) (path rq))"
    using read_file_exists[OF sp that] by auto
  from sp l r show ?thesis by blast
qed

section \<open>A response model that refuses the time stamp\<close>

text \<open>
  Where the response model raises on the number given for \<^verbatim>\<open>modified\<close>, the first
  entry of a directory already fails: listing any non-empty directory, recursively or not,
  is answered with status 500.
\<close>

lemma collect_first_fails:
  "xs \<noteq> [] \<Longrightarrow> (\<And>x. x \<in> set xs \<Longrightarrow> f x = Inl e) \<Longrightarrow> collect f xs = Inl e"
  by (cases xs) auto

lemma new_FileInfo_refused:
  "validate_modified w mt = None \<Longrightarrow> new_FileInfo w n p d sz mt = Inl ValidationError"
  by (simp add: new_FileInfo_def)

lemma entries_refused:
  assumes "lookup w p = Some (Dir m es)" "wf_node (Dir m es)" "p \<noteq> []" "e \<in> set es"
    and ref: "\<And>x. validate_modified w x = None"
  shows "dir_entry w p (fst e) = Inl ValidationError"
    and "file_entry w p (fst e) = Inl ValidationError"
    and "item_entry w p (fst e) = Inl ValidationError"
proof -
  obtain n c where e: "e = (n, c)" by (cases e)
  from stat_child[OF assms(1-3), of n c] assms(4) e
  show "dir_entry w p (fst e) = Inl ValidationError"
    and "file_entry w p (fst e) = Inl ValidationError"
    and "item_entry w p (fst e) = Inl ValidationError"
    by (simp_all add: dir_entry_def file_entry_def item_entry_def new_FileInfo_refused[OF ref])
qed

lemma list_files_refused_timestamp:
  assumes "safe_path cfg (cwd w) (path_list rq) = Inr p"
    and "lookup w p = Some (Dir m es)"
    and "wf_node (root w)"
    and "es \<noteq> []"
    and ref: "\<And>x. validate_modified w x = None"
  shows "list_files cfg w rq = Inl (HTTPException 500)"
proof -
  from assms(2) have "descend (root w) (components p) = Some (Dir m es)" by (simp add: lookup_def)
  from wf_descend[OF assms(3) this] have wf: "wf_node (Dir m es)" ..
  from assms(1) have ne: "p \<noteq> []" by (simp add: safe_path_Inr)
  note refused = entries_refused[OF assms(2) wf ne _ ref]
  show ?thesis
  proof (cases "recursive rq = Some True")
    case False
    have "collect (item_entry w p) (map fst es) = Inl ValidationError"
    proof (rule collect_first_fails)
      show "map fst es \<noteq> []" using assms(4) by simp
    next
      fix x assume "x \<in> set (map fst es)"
      then obtain e where "e \<in> set es" "x = fst e" by auto
      then show "item_entry w p x = Inl ValidationError" using refused(3) by simp
    qed
    with assms False show ?thesis
      by (simp add: list_files_def os_path_exists_def os_listdir_def)
  next
    case True
    have "walk_entries w (p, dirnames es, filenames es) = Inl ValidationError"
    proof (cases "dirnames es = []")
      case False
      then have "collect (dir_entry w p) (dirnames es) = Inl ValidationError"
      proof (rule collect_first_fails)
        fix x assume "x \<in> set (dirnames es)"
        then obtain e where "e \<in> set es" "x = fst e" by (auto simp: dirnames_def)
        then show "dir_entry w p x = Inl ValidationError" using refused(1) by simp
      qed
      then show ?thesis by (simp add: walk_entries_def)
    next
      case d: True
      with assms(4) have "filenames es \<noteq> []"
        by (cases es) (auto simp: dirnames_def filenames_def split: if_splits)
      then have "collect (file_entry w p) (filenames es) = Inl ValidationError"
      proof (rule collect_first_fails)
        fix x assume "x \<in> set (filenames es)"
        then obtain e where "e \<in> set es" "x = fst e" by (auto simp: filenames_def)
        then show "file_entry w p x = Inl ValidationError" using refused(2) by simp
      qed
      with d show ?thesis by (simp add: walk_entries_def)
    qed
    with assms True show ?thesis
      by (simp add: list_files_def os_path_exists_def os_walk_def)
  qed
qed

section \<open>The handlers on the small file system\<close>

text \<open>
  With the refusing response model, the recursive listing of \<^verbatim>\<open>/data\<close> is answered
  with status 500.
\<close>

lemma list_files_strict_world:
  "list_files sandboxed strict_world \<lparr>path_list = ''/data'', recursive = Some True\<rparr>
     = Inl (HTTPException 500)"
  by (simp add: list_files_def path_defs example_defs fs_defs walk_entries_def dir_entry_def
      file_entry_def new_FileInfo_def suffix_to_prefix)

theorem read_file_base64_fallback_witness:
  "read_file sandboxed example_world \<lparr>path = ''/data/sub/b.bin'', encoding = None\<rparr>
     = Inr \<lparr>content = [47, 119, 65, 81], encoding_resp = ''base64''\<rparr> \<and>
   b64decode (map char_of [47, 119, 65, 81 :: nat]) = Some [CHR 0xFF, CHR 0x00, CHR 0x10]"
proof -
  let ?rq = "\<lparr>path = ''/data/sub/b.bin'', encoding = None\<rparr>"
  have a: "safe_path sandboxed (cwd example_world) (path ?rq) = Inr ''/data/sub/b.bin''"
    by (simp add: path_defs example_defs)
  have b: "lookup example_world ''/data/sub/b.bin'' = Some (File 5 [CHR 0xFF, CHR 0x00, CHR 0x10])"
    by (simp add: fs_defs example_defs)
  have c: "codecs example_world (or_default (encoding ?rq) ''utf-8'') = Some decode_utf8"
    by (simp add: example_defs std_codecs_def)
  have d: "decode_utf8 [CHR 0xFF, CHR 0x00, CHR 0x10] = None"
    by (simp add: decode_utf8_def)
  have e: "map of_char (b64encode [CHR 0xFF, CHR 0x00, CHR 0x10]) = [47, 119, 65, 81 :: nat]"
    by (simp add: b64_char_def)
  from read_file_base64_fallback[OF a b c d, unfolded e] show ?thesis .
qed

text \<open>
  Claim C5, as stated, expects the label \<^verbatim>\<open>text\<close> for the UTF-8 file holding
  \<^verbatim>\<open>hello\n\<close>. The handler returns the label \<^verbatim>\<open>utf-8\<close> there.
\<close>

theorem read_file_label_is_encoding_name:
  "read_file sandboxed example_world \<lparr>path = ''/data/a.txt'', encoding = None\<rparr>
     = Inr \<lparr>content = [104, 101, 108, 108, 111, 10], encoding_resp = ''utf-8''\<rparr> \<and>
   read_file sandboxed example_world \<lparr>path = ''/data/a.txt'', encoding = None\<rparr>
     \<noteq> Inr \<lparr>content = [104, 101, 108, 108, 111, 10], encoding_resp = ''text''\<rparr>"
  by (simp add: read_file_def path_defs example_defs fs_defs std_codecs_def decode_utf8_def)

theorem read_file_text_witness:
  "read_file unrestricted example_world \<lparr>path = ''/data2/secret'', encoding = Some ''ascii''\<rparr>
     = Inr \<lparr>content = [115, 51], encoding_resp = ''ascii''\<rparr> \<and>
   read_file sandboxed example_world \<lparr>path = ''/data/a.txt'', encoding = Some ''''\<rparr>
     = Inr \<lparr>content = [104, 101, 108, 108, 111, 10], encoding_resp = ''utf-8''\<rparr>"
proof -
  let ?rq = "\<lparr>path = ''/data2/secret'', encoding = Some ''ascii''\<rparr>"
  let ?rq2 = "\<lparr>path = ''/data/a.txt'', encoding = Some ''''\<rparr>"
  have a: "safe_path unrestricted (cwd example_world) (path ?rq) = Inr ''/data2/secret''"
    by (simp add: path_defs example_defs)
  have b: "lookup example_world ''/data2/secret'' = Some (File 8 ''s3'')"
    by (simp add: fs_defs example_defs)
  have c: "codecs example_world (or_default (encoding ?rq) ''utf-8'') = Some decode_ascii_opt"
    by (simp add: example_defs std_codecs_def)
  have d: "decode_ascii_opt ''s3'' = Some [115, 51]"
    by (simp add: decode_ascii_opt_def decode_ascii_def)
  have a2: "safe_path sandboxed (cwd example_world) (path ?rq2) = Inr ''/data/a.txt''"
    by (simp add: path_defs example_defs)
  have b2: "lookup example_world ''/data/a.txt'' = Some (File 3 ''hello\<newline>'')"
    by (simp add: fs_defs example_defs)
  have c2: "codecs example_world (or_default (encoding ?rq2) ''utf-8'') = Some decode_utf8"
    by (simp add: example_defs std_codecs_def)
  have d2: "decode_utf8 ''hello\<newline>'' = Some [104, 101, 108, 108, 111, 10]"
    by (simp add: decode_utf8_def)
  from read_file_text[OF a b c d] read_file_text[OF a2 b2 c2 d2] show ?thesis by simp
qed

theorem read_file_directory_or_missing_witness:
  "read_file sandboxed example_world \<lparr>path = ''/data/sub'', encoding = None\<rparr>
     = Inl (HTTPException 400) \<and>
   read_file sandboxed example_world \<lparr>path = ''/data/nope'', encoding = None\<rparr>
     = Inl (HTTPException 404)"
proof -
  let ?rq = "\<lparr>path = ''/data/sub'', encoding = None\<rparr>"
  let ?rq2 = "\<lparr>path = ''/data/nope'', encoding = None\<rparr>"
  have a: "safe_path sandboxed (cwd example_world) (path ?rq) = Inr ''/data/sub''"
    by (simp add: path_defs example_defs)
  have b: "os_path_exists example_world ''/data/sub'' \<and> os_path_isdir example_world ''/data/sub''"
    by (simp add: fs_defs example_defs)
  have a2: "safe_path sandboxed (cwd example_world) (path ?rq2) = Inr ''/data/nope''"
    by (simp add: path_defs example_defs)
  have b2: "\<not> os_path_exists example_world ''/data/nope''"
    by (simp add: fs_defs example_defs)
  from read_file_directory_or_missing[OF a] b read_file_directory_or_missing[OF a2] b2
  show ?thesis by simp
qed

theorem read_file_unknown_encoding_witness:
  "read_file sandboxed example_world \<lparr>path = ''/data/a.txt'', encoding = Some ''klingon''\<rparr>
     = Inl (HTTPException 500)"
proof -
  let ?rq = "\<lparr>path = ''/data/a.txt'', encoding = Some ''klingon''\<rparr>"
  have a: "safe_path sandboxed (cwd example_world) (path ?rq) = Inr ''/data/a.txt''"
    by (simp add: path_defs example_defs)
  have b: "lookup example_world ''/data/a.txt'' = Some (File 3 ''hello\<newline>'')"
    by (simp add: fs_defs example_defs)
  have c: "codecs example_world (or_default (encoding ?rq) ''utf-8'') = None"
    by (simp add: example_defs std_codecs_def)
  from read_file_unknown_encoding[OF a b c] show ?thesis .
qed

theorem list_files_size_iff_file_witness:
  "list_files sandboxed example_world \<lparr>path_list = ''/data'', recursive = None\<rparr>
     = Inr \<lparr>files =
        [\<lparr>name = ''a.txt'', path_info = ''/data/a.txt'', is_dir = False,
            size_info = Some 6, modified = Some ''3''\<rparr>,
         \<lparr>name = ''sub'', path_info = ''/data/sub'', is_dir = True,
            size_info = None, modified = Some ''4''\<rparr>,
         \<lparr>name = ''empty'', path_info = ''/data/empty'', is_dir = True,
            size_info = None, modified = Some ''6''\<rparr>]\<rparr> \<and>
   list_all (\<lambda>e. (size_info e \<noteq> None) = (\<not> is_dir e))
     (files (projr (list_files sandboxed example_world \<lparr>path_list = ''/data'', recursive = None\<rparr>)))"
proof -
  let ?rq = "\<lparr>path_list = ''/data'', recursive = None\<rparr>"
  have a: "list_files sandboxed example_world ?rq
     = Inr \<lparr>files =
        [\<lparr>name = ''a.txt'', path_info = ''/data/a.txt'', is_dir = False,
            size_info = Some 6, modified = Some ''3''\<rparr>,
         \<lparr>name = ''sub'', path_info = ''/data/sub'', is_dir = True,
            size_info = None, modified = Some ''4''\<rparr>,
         \<lparr>name = ''empty'', path_info = ''/data/empty'', is_dir = True,
            size_info = None, modified = Some ''6''\<rparr>]\<rparr>"
    by (simp add: list_files_def path_defs example_defs fs_defs item_entry_def new_FileInfo_def
        decimal.simps suffix_to_prefix)
  from list_files_size_iff_file[OF a] a show ?thesis by (simp add: list_all_iff)
qed

theorem no_root_passthrough_witness:
  "safe_path unrestricted (cwd example_world) ''../data2/./secret'' = Inr ''/data2/secret'' \<and>
   read_file unrestricted example_world \<lparr>path = ''../data2/./secret'', encoding = None\<rparr>
     \<noteq> Inl (HTTPException 403) \<and>
   read_file unrestricted example_world \<lparr>path = ''../data2/./secret'', encoding = None\<rparr>
     \<noteq> Inl (HTTPException 404) \<and>
   list_files unrestricted example_world \<lparr>path_list = ''/data2'', recursive = Some True\<rparr>
     \<noteq> Inl (HTTPException 403) \<and>
   list_files unrestricted example_world \<lparr>path_list = ''/data2'', recursive = Some True\<rparr>
     \<noteq> Inl (HTTPException 404)"
proof -
  let ?rq = "\<lparr>path = ''../data2/./secret'', encoding = None\<rparr>"
  let ?rl = "\<lparr>path_list = ''/data2'', recursive = Some True\<rparr>"
  have h: "MCP_BASE_PATH unrestricted = None" by (simp add: unrestricted_def)
  have ab: "abspath (cwd example_world) ''../data2/./secret'' = ''/data2/secret''"
    by (simp add: path_defs example_defs suffix_to_prefix)
  have ab2: "abspath (cwd example_world) ''/data2'' = ''/data2''"
    by (simp add: path_defs example_defs)
  have e: "os_path_exists example_world ''/data2/secret''"
    by (simp add: fs_defs example_defs)
  have d: "os_path_exists example_world ''/data2''"
    by (simp add: fs_defs example_defs)
  from no_root_passthrough[OF h, of example_world "''../data2/./secret''" ?rl ?rq] ab ab2 e d
  show ?thesis by simp
qed

end
